theory Spec2Isabelle
  imports Complex_Main "HOL-Library.Char_ord" "HOL-Library.List_Lexorder"
begin

section \<open>The log analyzer of homework\_01\<close>

text \<open>
  A shallow embedding of \<^verbatim>\<open>src/homework_01/log_analyzer.py\<close>.

  Conventions of the model:
  \<^item> a Python exception is a value of \<open>exn\<close>, and a function that may raise returns
    \<open>exn + 'a\<close> with \<open>Inl\<close> for the exception;
  \<^item> a Python \<open>str\<close> and a Python \<open>bytes\<close> are both character lists; the type
    \<open>line\<close> keeps apart which of the two a line object is, since \<open>bytes.split(' ')\<close>
    raises where \<open>str.split(' ')\<close> splits;
  \<^item> request times are rationals: finite values with exact arithmetic. Rounding of
    floating-point sums and the special values \<open>inf\<close> and \<open>nan\<close> are not modelled;
  \<^item> the error rate \<open>errors_count / len(logs)\<close> is the quotient of two integers
    rounded to a double, as Python computes it, and the threshold is the value of the
    configured number;
  \<^item> the dictionary \<open>statistics\<close> is an association list in insertion order, the order
    in which \<open>statistics.items()\<close> iterates;
  \<^item> the built-in \<open>float\<close> is a parameter \<open>to_float\<close> of the parser, the calls of
    \<open>os\<close>, \<open>open\<close> and \<open>gzip.open\<close> are the fields of a record \<open>env\<close>.
\<close>

subsection \<open>Exceptions, log messages, lines\<close>

datatype exn =
    IndexError | ValueError | TypeError | ZeroDivisionError | RuntimeError
  | FileNotFoundError | OtherOSError | BadGzipFile | OverflowError

datatype log_msg =
    Error_msg string          \<comment> \<open>\<open>logging.error("...")\<close> with a fixed text\<close>
  | Error_parsing exn         \<comment> \<open>\<open>logging.error(f"Error parsing log line: {e}")\<close>\<close>

datatype line = Text string | Bytes string

subsection \<open>String helpers of Python\<close>

text \<open>\<open>s.split(' ')\<close>: cut at every single space; the result is never empty.\<close>

fun str_split :: "char \<Rightarrow> string \<Rightarrow> string list" where
  "str_split sep [] = [[]]"
| "str_split sep (c # cs) =
     (if c = sep then [] # str_split sep cs
      else (case str_split sep cs of
              [] \<Rightarrow> [[c]]
            | p # ps \<Rightarrow> (c # p) # ps))"

definition startswith :: "string \<Rightarrow> string \<Rightarrow> bool" where
  "startswith s p = (take (length p) s = p)"

definition endswith :: "string \<Rightarrow> string \<Rightarrow> bool" where
  "endswith s suf = (length suf \<le> length s \<and> drop (length s - length suf) s = suf)"

text \<open>\<open>max(xs)\<close> on a non-empty list, and \<open>ValueError\<close> on an empty one.\<close>

definition py_max :: "('a::linorder) list \<Rightarrow> exn + 'a" where
  "py_max xs = (case xs of [] \<Rightarrow> Inl ValueError | x # ys \<Rightarrow> Inr (fold max ys x))"

text \<open>\<open>os.path.join(a, b)\<close> on POSIX.\<close>

definition path_join :: "string \<Rightarrow> string \<Rightarrow> string" where
  "path_join a b =
     (if startswith b ''/'' then b
      else if a = [] \<or> endswith a ''/'' then a @ b
      else a @ ''/'' @ b)"

subsection \<open>\<open>parse_log_line\<close>\<close>

record parsed_log =
  parsed_url :: string
  request_time :: rat

text \<open>
  \<open>parts[7]\<close> is evaluated first and raises \<open>IndexError\<close> when there are fewer than
  eight parts; \<open>parts[-1]\<close> always exists; \<open>float\<close> raises \<open>ValueError\<close>. A
  \<open>bytes\<close> line raises \<open>TypeError\<close> in \<open>line.split(' ')\<close>.
\<close>

definition parse_log_line :: "(string \<Rightarrow> rat option) \<Rightarrow> line \<Rightarrow> exn + parsed_log" where
  "parse_log_line to_float l =
     (case l of
        Bytes b \<Rightarrow> Inl TypeError
      | Text s \<Rightarrow>
          (let parts = str_split CHR '' '' s in
           if length parts \<le> 7 then Inl IndexError
           else (case to_float (last parts) of
                   None \<Rightarrow> Inl ValueError
                 | Some t \<Rightarrow> Inr \<lparr>parsed_url = parts ! 7, request_time = t\<rparr>)))"

subsection \<open>The true division of two integers\<close>

text \<open>
  \<open>a / b\<close> on Python integers gives the double nearest to the exact quotient (ties to
  the even significand), \<open>ZeroDivisionError\<close> for a zero divisor and \<open>OverflowError\<close>
  when the result is too large for a double. A double has a significand of 53 bits:
  with \<open>e\<close> the exponent of the quotient (\<open>2 ^ e \<le> a / b < 2 ^ (e + 1)\<close>, and not
  below \<open>-1022\<close>, where the subnormal numbers begin), the result is the multiple of
  \<open>2 ^ (e - 52)\<close> nearest to the quotient.
\<close>

text \<open>The position of the highest bit of \<open>n\<close>.\<close>

fun floorlog2 :: "nat \<Rightarrow> nat" where
  "floorlog2 n = (if n < 2 then 0 else Suc (floorlog2 (n div 2)))"

declare floorlog2.simps [simp del]

definition pow2 :: "int \<Rightarrow> rat" where
  "pow2 k = (if 0 \<le> k then 2 ^ nat k else 1 / 2 ^ nat (- k))"

definition floor_log2_quot :: "nat \<Rightarrow> nat \<Rightarrow> int" where
  "floor_log2_quot a b =
     (let d = int (floorlog2 a) - int (floorlog2 b)
      in if pow2 d \<le> of_nat a / of_nat b then d else d - 1)"

text \<open>The integer nearest to \<open>n / m\<close>, the even one of two that are equally near.\<close>

definition round_half_even :: "nat \<Rightarrow> nat \<Rightarrow> nat" where
  "round_half_even n m =
     (let q = n div m; r = n mod m
      in if 2 * r < m then q else if m < 2 * r then q + 1 else if even q then q else q + 1)"

definition rounded_quot :: "nat \<Rightarrow> nat \<Rightarrow> rat" where
  "rounded_quot a b =
     (if a = 0 then 0
      else
        (let e = max (floor_log2_quot a b) (- 1022);
             s = 52 - e;
             m = (if 0 \<le> s then round_half_even (a * 2 ^ nat s) b
                  else round_half_even a (b * 2 ^ nat (- s)))
         in of_nat m * pow2 (- s)))"

definition truediv :: "nat \<Rightarrow> nat \<Rightarrow> exn + rat" where
  "truediv a b =
     (if b = 0 then Inl ZeroDivisionError
      else (let r = rounded_quot a b
            in if 2 ^ 1024 \<le> r then Inl OverflowError else Inr r))"

subsection \<open>\<open>process_logs\<close>\<close>

type_synonym stats = "(string \<times> rat list) list"

text \<open>\<open>statistics[k].append(v)\<close> on a \<open>defaultdict(list)\<close>: a new key goes last.\<close>

fun dict_append :: "string \<Rightarrow> rat \<Rightarrow> stats \<Rightarrow> stats" where
  "dict_append k v [] = [(k, [v])]"
| "dict_append k v ((k', vs) # kvs) =
     (if k = k' then (k', vs @ [v]) # kvs else (k', vs) # dict_append k v kvs)"

record agg_state =
  statistics :: stats
  total_time :: rat
  errors_count :: nat
  logged :: "log_msg list"

definition agg_init :: agg_state where
  "agg_init = \<lparr>statistics = [], total_time = 0, errors_count = 0, logged = []\<rparr>"

text \<open>The body of the \<open>for\<close> loop, with its \<open>try\<close> and \<open>except Exception\<close>.\<close>

definition process_line :: "(string \<Rightarrow> rat option) \<Rightarrow> agg_state \<Rightarrow> line \<Rightarrow> agg_state" where
  "process_line to_float st l =
     (case parse_log_line to_float l of
        Inr parsed \<Rightarrow>
          st\<lparr>statistics := dict_append (parsed_url parsed) (request_time parsed) (statistics st),
             total_time := total_time st + request_time parsed\<rparr>
      | Inl e \<Rightarrow>
          st\<lparr>logged := logged st @ [Error_parsing e],
             errors_count := errors_count st + 1\<rparr>)"

definition process_logs ::
  "(string \<Rightarrow> rat option) \<Rightarrow> rat \<Rightarrow> line list \<Rightarrow> (exn + stats \<times> rat) \<times> log_msg list" where
  "process_logs to_float errors_threshold logs =
     (let st = foldl (process_line to_float) agg_init logs in
      case truediv (errors_count st) (length logs) of
        Inl e \<Rightarrow> (Inl e, logged st)
      | Inr rate \<Rightarrow>
          if rate > errors_threshold
          then (Inl RuntimeError,
                logged st @ [Error_msg ''Too many errors parsing log lines. Exiting.''])
          else (Inr (statistics st, total_time st), logged st))"

subsection \<open>\<open>generate_report\<close>\<close>

text \<open>
  \<open>heapq.nlargest(n, iterable, key)\<close> is a function of the Python library; it is modelled
  by the equivalence its documentation gives,
  \<open>sorted(iterable, key=key, reverse=True)[:n]\<close>: a stable sort, so that elements with
  equal keys keep the order of the iterable, and a slice, which is empty for \<open>n \<le> 0\<close>.
\<close>

definition nlargest :: "int \<Rightarrow> ('a \<Rightarrow> rat) \<Rightarrow> 'a list \<Rightarrow> 'a list" where
  "nlargest n key xs = take (nat n) (sort_key (\<lambda>x. - key x) xs)"

record row =
  url :: string
  count :: nat
  count_perc :: rat
  time_sum :: rat
  time_perc :: rat
  time_avg :: rat
  time_max :: rat
  time_med :: rat

text \<open>
  The dictionary literal \<open>url_stats\<close> of one loop round, its entries evaluated in the
  order of the source: the three divisions raise \<open>ZeroDivisionError\<close> on a zero divisor,
  \<open>max\<close> raises \<open>ValueError\<close> and the index \<open>IndexError\<close> on an empty list.
\<close>

definition url_stats :: "nat \<Rightarrow> rat \<Rightarrow> string \<times> rat list \<Rightarrow> exn + row" where
  "url_stats n_urls total_t x =
     (let times = snd x in
      if n_urls = 0 then Inl ZeroDivisionError
      else if total_t = 0 then Inl ZeroDivisionError
      else if length times = 0 then Inl ZeroDivisionError
      else (case py_max times of
              Inl e \<Rightarrow> Inl e
            | Inr m \<Rightarrow>
                if length times div 2 \<ge> length (sort times) then Inl IndexError
                else Inr \<lparr>url = fst x,
                          count = length times,
                          count_perc = of_nat (length times) / of_nat n_urls,
                          time_sum = sum_list times,
                          time_perc = sum_list times / total_t,
                          time_avg = sum_list times / of_nat (length times),
                          time_max = m,
                          time_med = sort times ! (length times div 2)\<rparr>))"

text \<open>The \<open>for\<close> loop over \<open>sorted_stats\<close>; the first exception ends it.\<close>

fun report_loop :: "nat \<Rightarrow> rat \<Rightarrow> stats \<Rightarrow> exn + row list" where
  "report_loop n_urls total_t [] = Inr []"
| "report_loop n_urls total_t (x # xs) =
     (case url_stats n_urls total_t x of
        Inl e \<Rightarrow> Inl e
      | Inr r \<Rightarrow> (case report_loop n_urls total_t xs of
                   Inl e \<Rightarrow> Inl e
                 | Inr rs \<Rightarrow> Inr (r # rs)))"

definition generate_report :: "stats \<Rightarrow> rat \<Rightarrow> int \<Rightarrow> exn + row list" where
  "generate_report stats total_t report_size =
     (let sorted_stats = nlargest report_size (\<lambda>x. sum_list (snd x)) stats
      in report_loop (length stats) total_t sorted_stats)"

subsection \<open>\<open>generate_report\<close> on a store of list objects\<close>

text \<open>
  In Python the values of \<open>statistics\<close> are references to list objects, which a callee
  could change in place. The store keeps the dictionary as keys with addresses and the
  list objects by address (their position in \<open>list_objs\<close>). \<open>len\<close>, \<open>sum\<close> and
  \<open>max\<close> read a list object, \<open>heapq.nlargest\<close> reads the items and builds a new list of
  the same references, and \<open>sorted(times)\<close> allocates a new list object. The argument
  \<open>total_time\<close> is a number, passed by value.
\<close>

record py_store =
  dict_items :: "(string \<times> nat) list"
  list_objs :: "rat list list"

definition wf_store :: "py_store \<Rightarrow> bool" where
  "wf_store s = list_all (\<lambda>x. snd x < length (list_objs s)) (dict_items s)"

text \<open>The statistics a store holds, as values.\<close>

definition stats_of :: "py_store \<Rightarrow> stats" where
  "stats_of s = map (\<lambda>x. (fst x, list_objs s ! snd x)) (dict_items s)"

definition url_stats_st ::
  "nat \<Rightarrow> rat \<Rightarrow> rat list list \<Rightarrow> string \<times> nat \<Rightarrow> (exn + row) \<times> rat list list" where
  "url_stats_st n_urls total_t h x =
     (let times = h ! snd x in
      case url_stats n_urls total_t (fst x, times) of
        Inl e \<Rightarrow> (Inl e, h)
      | Inr r \<Rightarrow> (Inr r, h @ [sort times]))"

fun report_loop_st ::
  "nat \<Rightarrow> rat \<Rightarrow> rat list list \<Rightarrow> (string \<times> nat) list \<Rightarrow> (exn + row list) \<times> rat list list" where
  "report_loop_st n_urls total_t h [] = (Inr [], h)"
| "report_loop_st n_urls total_t h (x # xs) =
     (case url_stats_st n_urls total_t h x of
        (Inl e, h') \<Rightarrow> (Inl e, h')
      | (Inr r, h') \<Rightarrow> (case report_loop_st n_urls total_t h' xs of
                         (Inl e, h'') \<Rightarrow> (Inl e, h'')
                       | (Inr rs, h'') \<Rightarrow> (Inr (r # rs), h'')))"

definition generate_report_st :: "py_store \<Rightarrow> rat \<Rightarrow> int \<Rightarrow> (exn + row list) \<times> py_store" where
  "generate_report_st s total_t report_size =
     (let sorted_stats =
            nlargest report_size (\<lambda>x. sum_list (list_objs s ! snd x)) (dict_items s);
          res = report_loop_st (length (dict_items s)) total_t (list_objs s) sorted_stats
      in (fst res, s\<lparr>list_objs := snd res\<rparr>))"

subsection \<open>\<open>get_latest_log_file\<close>, \<open>read_log_file\<close>, \<open>save_report\<close>, \<open>main\<close>\<close>

text \<open>
  What the run finds outside: \<open>os.listdir\<close> (which raises for a directory that does not
  exist), the lines that iterating \<open>open(path, 'rb')\<close> gives, the lines that iterating
  \<open>gzip.open(path, 'rt')\<close> gives, and whether writing a file raises.
\<close>

record env =
  listdir :: "string \<Rightarrow> exn + string list"
  open_rb :: "string \<Rightarrow> exn + string list"
  gzip_open_rt :: "string \<Rightarrow> exn + string list"
  write_file :: "string \<Rightarrow> exn option"

record config =
  REPORT_SIZE :: int
  REPORT_DIR :: string
  LOG_DIR :: string
  ERRORS_THRESHOLD :: rat

definition get_latest_log_file :: "env \<Rightarrow> string \<Rightarrow> (exn + string option) \<times> log_msg list" where
  "get_latest_log_file ev log_dir =
     (case listdir ev log_dir of
        Inl e \<Rightarrow> (Inl e, [])
      | Inr fs \<Rightarrow>
          (let log_files = filter (\<lambda>f. startswith f ''nginx-access-ui.log'') fs in
           if log_files = [] then (Inr None, [Error_msg ''No log files found.''])
           else (case py_max log_files of
                   Inl e \<Rightarrow> (Inl e, [])
                 | Inr m \<Rightarrow> (Inr (Some m), []))))"

text \<open>
  The file is opened in binary mode first; only for a name ending in \<open>.gz\<close> is \<open>f\<close>
  replaced by a text-mode reader. The loop then collects what \<open>f\<close> yields.
\<close>

definition read_log_file :: "env \<Rightarrow> string \<Rightarrow> exn + line list" where
  "read_log_file ev log_file =
     (case open_rb ev log_file of
        Inl e \<Rightarrow> Inl e
      | Inr raw_lines \<Rightarrow>
          if endswith log_file ''.gz''
          then (case gzip_open_rt ev log_file of
                  Inl e \<Rightarrow> Inl e
                | Inr text_lines \<Rightarrow> Inr (map Text text_lines))
          else Inr (map Bytes raw_lines))"

datatype outcome = Crashed exn | Ended_early | Report_saved string "row list"

definition save_report :: "env \<Rightarrow> row list \<Rightarrow> string \<Rightarrow> outcome" where
  "save_report ev report_data report_path =
     (case write_file ev report_path of
        Some e \<Rightarrow> Crashed e
      | None \<Rightarrow> Report_saved report_path report_data)"

text \<open>
  \<open>main\<close> from the call of \<open>get_latest_log_file\<close> on, for a configuration already
  loaded. An exception that no handler catches ends the run as \<open>Crashed\<close>;
  \<open>not latest_log_file\<close> holds for \<open>None\<close> and for the empty string.
\<close>

definition main :: "(string \<Rightarrow> rat option) \<Rightarrow> env \<Rightarrow> config \<Rightarrow> outcome \<times> log_msg list" where
  "main to_float ev cfg =
     (case get_latest_log_file ev (LOG_DIR cfg) of
        (Inl e, lg) \<Rightarrow> (Crashed e, lg)
      | (Inr latest, lg) \<Rightarrow>
          if latest = None \<or> latest = Some []
          then (Ended_early, lg @ [Error_msg ''No log files found. Exiting.''])
          else
            (let latest_log_file = the latest;
                 log_path = path_join (LOG_DIR cfg) latest_log_file in
             case read_log_file ev log_path of
               Inl e \<Rightarrow> (Crashed e, lg)
             | Inr logs \<Rightarrow>
                 (case process_logs to_float (ERRORS_THRESHOLD cfg) logs of
                    (Inl e, lg') \<Rightarrow> (Crashed e, lg @ lg')
                  | (Inr (stats, total_t), lg') \<Rightarrow>
                      (case generate_report stats total_t (REPORT_SIZE cfg) of
                         Inl e \<Rightarrow> (Crashed e, lg @ lg')
                       | Inr report_data \<Rightarrow>
                           (save_report ev report_data
                              (path_join (REPORT_DIR cfg)
                                 (''report-'' @ take 10 (drop 17 latest_log_file) @ ''.html'')),
                            lg @ lg')))))"

subsection \<open>Inputs for the examples\<close>

text \<open>The values of \<open>float\<close> on the strings that the examples use.\<close>

definition float_table :: "string \<Rightarrow> rat option" where
  "float_table = map_of [(''0.1'', 1 / 10), (''0.2'', 2 / 10), (''0.3'', 3 / 10), (''0.5'', 1 / 2)]"

text \<open>A log directory with one plain file of one well-formed line, and one without files.\<close>

definition line_a :: string where
  "line_a = ''1.196.116.32 -  - [29/Jun/2017:03:50:22 +0300] GET /a HTTP/1.1 200 927 0.5''"

definition env_plain :: env where
  "env_plain =
     \<lparr>listdir = (\<lambda>d. if d = ''./log'' then Inr [''nginx-access-ui.log-20170630''] else Inl FileNotFoundError),
      open_rb = (\<lambda>p. if p = ''./log/nginx-access-ui.log-20170630'' then Inr [line_a] else Inl FileNotFoundError),
      gzip_open_rt = (\<lambda>p. Inl BadGzipFile),
      write_file = (\<lambda>p. None)\<rparr>"

text \<open>The doubles nearest to one tenth and to one third.\<close>

definition double_tenth :: rat where
  "double_tenth = 3602879701896397 / 36028797018963968"

definition double_third :: rat where
  "double_third = 6004799503160661 / 18014398509481984"

text \<open>The built-in configuration, whose \<open>ERRORS_THRESHOLD\<close> is the literal \<open>0.1\<close>.\<close>

definition cfg_default :: "string \<Rightarrow> config" where
  "cfg_default log_dir =
     \<lparr>REPORT_SIZE = 1000, REPORT_DIR = ''./'', LOG_DIR = log_dir,
      ERRORS_THRESHOLD = double_tenth\<rparr>"

definition logs_third :: "line list" where
  "logs_third = [Text line_a, Text ''bad'', Text line_a]"



definition store_ab :: py_store where
  "store_ab = \<lparr>dict_items = [(''/a'', 0), (''/b'', 1)], list_objs = [[2, 1], [5]]\<rparr>"

text \<open>A log directory in which no file name starts with the prefix.\<close>

definition env_other :: env where
  "env_other =
     \<lparr>listdir = (\<lambda>d. if d = ''./log'' then Inr [''access.log'', ''notes.txt''] else Inl FileNotFoundError),
      open_rb = (\<lambda>p. Inl FileNotFoundError),
      gzip_open_rt = (\<lambda>p. Inl BadGzipFile),
      write_file = (\<lambda>p. None)\<rparr>"

text \<open>What the loop of \<open>process_logs\<close> keeps true of its variables.\<close>

definition agg_inv :: "agg_state \<Rightarrow> bool" where
  "agg_inv st =
     (distinct (map fst (statistics st))
      \<and> (\<forall>x\<in>set (statistics st). snd x \<noteq> [])
      \<and> total_time st = sum_list (map (\<lambda>x. sum_list (snd x)) (statistics st)))"

section \<open>Properties\<close>

subsection \<open>The true division\<close>

lemma floorlog2_1: "floorlog2 (Suc 0) = 0"
  by (simp add: floorlog2.simps)

lemma floorlog2_3: "floorlog2 3 = 1"
  by (simp add: floorlog2.simps)

lemma floorlog2_10: "floorlog2 10 = 3"
  by (simp add: floorlog2.simps)

lemma floor_log2_quot_1_3: "floor_log2_quot (Suc 0) 3 = - 2"
  by (simp add: floor_log2_quot_def floorlog2_1 floorlog2_3 pow2_def)

lemma floor_log2_quot_1_10: "floor_log2_quot (Suc 0) 10 = - 4"
  by (simp add: floor_log2_quot_def floorlog2_1 floorlog2_10 pow2_def)

lemma floor_log2_quot_1_1: "floor_log2_quot (Suc 0) (Suc 0) = 0"
  by (simp add: floor_log2_quot_def floorlog2_1 pow2_def)

lemma rounded_quot_1_3: "rounded_quot (Suc 0) 3 = double_third"
  by (simp add: rounded_quot_def floor_log2_quot_1_3 round_half_even_def pow2_def Let_def
      double_third_def)

lemma rounded_quot_1_10: "rounded_quot (Suc 0) 10 = double_tenth"
  by (simp add: rounded_quot_def floor_log2_quot_1_10 round_half_even_def pow2_def Let_def
      double_tenth_def)

lemma rounded_quot_1_1: "rounded_quot (Suc 0) (Suc 0) = 1"
  by (simp add: rounded_quot_def floor_log2_quot_1_1 round_half_even_def pow2_def Let_def)

text \<open>\<open>1 / 3\<close>, \<open>1 / 10\<close> and \<open>1 / 1\<close> as Python computes them.\<close>

lemma truediv_1_3: "truediv 1 3 = Inr double_third"
  by (simp add: truediv_def rounded_quot_1_3 Let_def double_third_def)

lemma truediv_1_10: "truediv 1 10 = Inr double_tenth"
  by (simp add: truediv_def rounded_quot_1_10 Let_def double_tenth_def)

lemma truediv_1_1: "truediv (Suc 0) (Suc 0) = Inr 1"
  by (simp add: truediv_def rounded_quot_1_1 Let_def)

text \<open>A quotient of \<open>a \<le> b\<close> is a double between 0 and 1: the division does not raise.\<close>

lemma floorlog2_mono: "a \<le> b \<Longrightarrow> floorlog2 a \<le> floorlog2 b"
proof (induction b arbitrary: a rule: floorlog2.induct)
  case (1 n)
  show ?case
  proof (cases "a < 2")
    case True
    then show ?thesis by (simp add: floorlog2.simps [of a])
  next
    case False
    with "1.prems" have n: "\<not> n < 2" by simp
    from "1.prems" have "a div 2 \<le> n div 2" by (rule div_le_mono)
    from "1.IH" [OF n this] False n show ?thesis
      by (simp add: floorlog2.simps [of a] floorlog2.simps [of n])
  qed
qed

lemma round_half_even_le:
  assumes "0 < b" "a \<le> b"
  shows "round_half_even (a * k) b \<le> k"
proof (cases "a = b")
  case True
  with assms show ?thesis by (simp add: round_half_even_def)
next
  case False
  with assms have "a < b" by simp
  show ?thesis
  proof (cases "k = 0")
    case True
    with assms show ?thesis by (simp add: round_half_even_def)
  next
    case False
    with \<open>a < b\<close> have "a * k < b * k" by simp
    then have "a * k div b < k"
      using assms(1) by (simp add: less_mult_imp_div_less mult.commute)
    then show ?thesis by (simp add: round_half_even_def Let_def)
  qed
qed

lemma floor_log2_quot_le:
  assumes "a \<le> b"
  shows "floor_log2_quot a b \<le> 0"
proof -
  from floorlog2_mono [OF assms] have "int (floorlog2 a) - int (floorlog2 b) \<le> 0" by simp
  then show ?thesis by (simp add: floor_log2_quot_def Let_def)
qed

lemma rounded_quot_le_one:
  assumes "0 < b" "a \<le> b"
  shows "0 \<le> rounded_quot a b \<and> rounded_quot a b \<le> 1"
proof (cases "a = 0")
  case True
  then show ?thesis by (simp add: rounded_quot_def)
next
  case False
  define e where "e = max (floor_log2_quot a b) (- 1022)"
  define s where "s = 52 - e"
  define m where "m = round_half_even (a * 2 ^ nat s) b"
  from floor_log2_quot_le [OF assms(2)] have "e \<le> 0" by (simp add: e_def)
  then have s: "0 \<le> s" by (simp add: s_def)
  from False s have rq: "rounded_quot a b = of_nat m * pow2 (- s)"
    by (simp only: rounded_quot_def Let_def e_def [symmetric] s_def [symmetric]
        m_def [symmetric] if_False if_True)
  from round_half_even_le [OF assms] have "m \<le> 2 ^ nat s" by (simp add: m_def)
  then have "(of_nat m :: rat) \<le> of_nat (2 ^ nat s)" by (simp only: of_nat_le_iff)
  then have m: "(of_nat m :: rat) \<le> 2 ^ nat s" by simp
  have p: "pow2 (- s) = 1 / 2 ^ nat s"
  proof (cases "s = 0")
    case True
    then show ?thesis by (simp add: pow2_def)
  next
    case False
    with s show ?thesis by (simp add: pow2_def)
  qed
  from m have "of_nat m * pow2 (- s) \<le> 1" by (simp add: p divide_le_eq)
  moreover have "0 \<le> of_nat m * pow2 (- s)" by (simp add: p)
  ultimately show ?thesis by (simp only: rq)
qed

lemma truediv_le_one:
  assumes "0 < b" "a \<le> b"
  shows "\<exists>r. truediv a b = Inr r \<and> 0 \<le> r \<and> r \<le> 1"
proof -
  from rounded_quot_le_one [OF assms]
  have r: "0 \<le> rounded_quot a b" "rounded_quot a b \<le> 1" by simp_all
  have "(1::rat) < 2 ^ 1024" by simp
  with r(2) have "\<not> 2 ^ 1024 \<le> rounded_quot a b" by linarith
  with assms(1) r show ?thesis by (simp add: truediv_def Let_def)
qed

subsection \<open>The parser and the aggregation loop\<close>

lemma str_split_nonempty: "str_split sep s \<noteq> []"
  by (induction s) (auto split: list.splits)

lemma process_line_fail:
  "isl (parse_log_line tf l) \<Longrightarrow>
   process_line tf st l =
     st\<lparr>logged := logged st @ [Error_parsing (projl (parse_log_line tf l))],
        errors_count := errors_count st + 1\<rparr>"
  by (cases "parse_log_line tf l") (simp_all add: process_line_def)

lemma errors_count_process_line:
  "errors_count (process_line tf st l) =
     errors_count st + (if isl (parse_log_line tf l) then 1 else 0)"
  by (cases "parse_log_line tf l") (simp_all add: process_line_def)

lemma errors_count_foldl:
  "errors_count (foldl (process_line tf) st logs) =
     errors_count st + length (filter (\<lambda>l. isl (parse_log_line tf l)) logs)"
  by (induction logs arbitrary: st) (simp_all add: errors_count_process_line)

lemma errors_count_loop:
  "errors_count (foldl (process_line tf) agg_init logs) =
     length (filter (\<lambda>l. isl (parse_log_line tf l)) logs)"
  by (simp add: errors_count_foldl agg_init_def)

text \<open>
  The statistics that \<open>process_logs\<close> returns are a dictionary with distinct keys and
  no empty list, and the total time is the sum of all their times.
\<close>

lemma keys_dict_append: "fst ` set (dict_append k v kvs) = insert k (fst ` set kvs)"
proof (induction k v kvs rule: dict_append.induct)
  case (1 k v)
  then show ?case by simp
next
  case (2 k v k' vs kvs)
  show ?case
  proof (cases "k = k'")
    case True
    then show ?thesis by simp
  next
    case False
    with 2 show ?thesis by (simp add: insert_commute)
  qed
qed

lemma distinct_dict_append:
  "distinct (map fst kvs) \<Longrightarrow> distinct (map fst (dict_append k v kvs))"
proof (induction k v kvs rule: dict_append.induct)
  case (1 k v)
  then show ?case by simp
next
  case (2 k v k' vs kvs)
  show ?case
  proof (cases "k = k'")
    case True
    with "2.prems" show ?thesis by simp
  next
    case False
    from "2.prems" have "k' \<notin> fst ` set kvs" by simp
    with False have "k' \<notin> fst ` set (dict_append k v kvs)"
      by (simp add: keys_dict_append)
    with 2 False show ?thesis by simp
  qed
qed

lemma nonempty_dict_append:
  "\<forall>x\<in>set kvs. snd x \<noteq> [] \<Longrightarrow> \<forall>x\<in>set (dict_append k v kvs). snd x \<noteq> []"
  by (induction k v kvs rule: dict_append.induct) simp_all

lemma sum_dict_append:
  "sum_list (map (\<lambda>x. sum_list (snd x)) (dict_append k v kvs)) =
     sum_list (map (\<lambda>x. sum_list (snd x)) kvs) + v"
  by (induction kvs) auto

lemma agg_inv_process_line:
  assumes "agg_inv st"
  shows "agg_inv (process_line tf st l)"
proof (cases "parse_log_line tf l")
  case (Inl e)
  with assms show ?thesis by (simp add: agg_inv_def process_line_def)
next
  case (Inr p)
  from assms have "\<forall>x\<in>set (statistics st). snd x \<noteq> []" by (simp add: agg_inv_def)
  then have "\<forall>x\<in>set (dict_append (parsed_url p) (request_time p) (statistics st)). snd x \<noteq> []"
    by (rule nonempty_dict_append)
  with assms Inr show ?thesis
    by (simp add: agg_inv_def process_line_def distinct_dict_append sum_dict_append)
qed

lemma agg_inv_foldl: "agg_inv st \<Longrightarrow> agg_inv (foldl (process_line tf) st logs)"
  by (induction logs arbitrary: st) (simp_all add: agg_inv_process_line)

lemma process_logs_result:
  assumes "process_logs tf thr logs = (Inr (stats, tt), lg)"
  shows "distinct (map fst stats)" "\<forall>x\<in>set stats. snd x \<noteq> []"
    "tt = sum_list (map (\<lambda>x. sum_list (snd x)) stats)"
proof -
  have "agg_inv (foldl (process_line tf) agg_init logs)"
    by (rule agg_inv_foldl) (simp add: agg_inv_def agg_init_def)
  moreover from assms have "stats = statistics (foldl (process_line tf) agg_init logs)"
    "tt = total_time (foldl (process_line tf) agg_init logs)"
    by (auto simp: process_logs_def Let_def split: if_splits sum.splits)
  ultimately show "distinct (map fst stats)" "\<forall>x\<in>set stats. snd x \<noteq> []"
    "tt = sum_list (map (\<lambda>x. sum_list (snd x)) stats)"
    by (simp_all add: agg_inv_def)
qed

lemma parse_line_a:
  "parse_log_line float_table (Text line_a) = Inr \<lparr>parsed_url = ''/a'', request_time = 1 / 2\<rparr>"
  by (simp add: parse_log_line_def line_a_def float_table_def)

lemma parse_bad: "parse_log_line float_table (Text ''bad'') = Inl IndexError"
  by (simp add: parse_log_line_def)

text \<open>
  C2. For a non-empty list of lines the error rate, the number of lines that fail to
  parse divided by the number of lines as Python divides, is a double, and
  \<open>process_logs\<close> raises exactly when that rate is strictly greater than the threshold:
  then it raises its \<open>RuntimeError\<close>; at a rate equal to or below the threshold it
  returns the statistics and the total time that the loop has built.
\<close>

theorem error_threshold_strict:
  assumes "logs \<noteq> []"
  shows "\<exists>rate.
           truediv (length (filter (\<lambda>l. isl (parse_log_line tf l)) logs)) (length logs) = Inr rate
         \<and> isl (fst (process_logs tf thr logs)) = (thr < rate)
         \<and> (thr < rate \<longrightarrow> fst (process_logs tf thr logs) = Inl RuntimeError)
         \<and> (\<not> thr < rate \<longrightarrow>
              fst (process_logs tf thr logs) =
                Inr (statistics (foldl (process_line tf) agg_init logs),
                     total_time (foldl (process_line tf) agg_init logs)))"
proof -
  let ?errs = "length (filter (\<lambda>l. isl (parse_log_line tf l)) logs)"
  from assms have "0 < length logs" by simp
  moreover have "?errs \<le> length logs" by (rule length_filter_le)
  ultimately obtain rate where rate: "truediv ?errs (length logs) = Inr rate"
    using truediv_le_one by blast
  then have "isl (fst (process_logs tf thr logs)) = (thr < rate)"
    and "thr < rate \<longrightarrow> fst (process_logs tf thr logs) = Inl RuntimeError"
    and "\<not> thr < rate \<longrightarrow>
              fst (process_logs tf thr logs) =
                Inr (statistics (foldl (process_line tf) agg_init logs),
                     total_time (foldl (process_line tf) agg_init logs))"
    by (simp_all add: process_logs_def Let_def errors_count_loop)
  with rate show ?thesis by blast
qed

text \<open>
  Three lines, one of which fails: the rate is the double nearest to one third. With
  that double as threshold the run returns; with the threshold \<open>0.1\<close> it raises.
\<close>

theorem error_threshold_strict_witness:
  "logs_third \<noteq> []
   \<and> fst (process_logs float_table double_third logs_third) =
       Inr ([(''/a'', [1 / 2, 1 / 2])], 1)
   \<and> fst (process_logs float_table double_tenth logs_third) = Inl RuntimeError"
proof -
  have ne: "logs_third \<noteq> []" by (simp add: logs_third_def)
  have len: "length logs_third = 3" by (simp add: logs_third_def)
  have errs: "length (filter (\<lambda>l. isl (parse_log_line float_table l)) logs_third) = 1"
    by (simp add: logs_third_def parse_line_a parse_bad)
  have rate: "truediv (length (filter (\<lambda>l. isl (parse_log_line float_table l)) logs_third))
                (length logs_third) = Inr double_third"
    by (simp only: len errs truediv_1_3)
  have st: "statistics (foldl (process_line float_table) agg_init logs_third) =
              [(''/a'', [1 / 2, 1 / 2])]"
           "total_time (foldl (process_line float_table) agg_init logs_third) = 1"
    by (simp_all add: logs_third_def process_line_def parse_line_a parse_bad agg_init_def)
  have lt: "double_tenth < double_third" by (simp add: double_tenth_def double_third_def)
  from error_threshold_strict [OF ne, of float_table double_third] rate st
  have a: "fst (process_logs float_table double_third logs_third) =
             Inr ([(''/a'', [1 / 2, 1 / 2])], 1)"
    by auto
  from error_threshold_strict [OF ne, of float_table double_tenth] rate lt
  have b: "fst (process_logs float_table double_tenth logs_third) = Inl RuntimeError"
    by auto
  from ne a b show ?thesis by simp
qed

text \<open>
  C4. On an empty list of lines \<open>process_logs\<close> raises the \<open>ZeroDivisionError\<close> of
  \<open>errors_count / len(logs)\<close>, for every parser and every threshold; the source has no
  check of \<open>len(logs)\<close> before the division and no error of its own for an empty file.
\<close>

theorem empty_log_zero_division:
  "process_logs tf thr [] = (Inl ZeroDivisionError, [])"
  by (simp add: process_logs_def agg_init_def truediv_def)

text \<open>
  C6, as the claim states it: a line whose field 7 is empty and whose last field is a
  number is parsed, with the empty string as URL.
\<close>

theorem empty_url_counterexample:
  "str_split CHR '' '' ''- - - - - - -  0.5'' ! 7 = []
   \<and> parse_log_line float_table (Text ''- - - - - - -  0.5'') =
       Inr \<lparr>parsed_url = [], request_time = 1 / 2\<rparr>"
  by (simp add: parse_log_line_def float_table_def)

text \<open>
  C6, amended. A line of text fails to parse exactly when it has fewer than eight
  space-separated fields or \<open>float\<close> rejects its last field. A line that fails to parse
  leaves the statistics and the total time as they are and adds one to the error count.
\<close>

theorem parse_failure_cases:
  "isl (parse_log_line tf (Text s)) =
     (length (str_split CHR '' '' s) < 8 \<or> tf (last (str_split CHR '' '' s)) = None)
   \<and> (isl (parse_log_line tf l) \<longrightarrow>
        statistics (process_line tf st l) = statistics st
        \<and> total_time (process_line tf st l) = total_time st
        \<and> errors_count (process_line tf st l) = errors_count st + 1)"
  by (auto simp: parse_log_line_def Let_def process_line_fail split: option.splits)

theorem parse_failure_cases_witness:
  "isl (parse_log_line float_table (Text ''bad''))
   \<and> length (str_split CHR '' '' ''bad'') < 8
   \<and> statistics (process_line float_table agg_init (Text ''bad'')) = []
   \<and> total_time (process_line float_table agg_init (Text ''bad'')) = 0
   \<and> errors_count (process_line float_table agg_init (Text ''bad'')) = 1"
proof -
  have f: "isl (parse_log_line float_table (Text ''bad''))"
    by (simp add: parse_bad)
  from parse_failure_cases [of float_table "''bad''" "Text ''bad''" agg_init] f
  show ?thesis by (simp add: agg_init_def)
qed

subsection \<open>The report\<close>

lemma url_stats_Inr:
  assumes "url_stats n t x = Inr r"
  shows "url r = fst x" "count r = length (snd x)" "time_sum r = sum_list (snd x)"
    "time_med r = sort (snd x) ! (length (snd x) div 2)"
    "time_perc r = sum_list (snd x) / t"
    "time_avg r = sum_list (snd x) / of_nat (length (snd x))"
    "count_perc r = of_nat (length (snd x)) / of_nat n"
    "snd x \<noteq> []" "t \<noteq> 0" "n \<noteq> 0"
  using assms by (auto simp: url_stats_def Let_def split: if_splits sum.splits)


lemma report_loop_Inr:
  "report_loop n t xs = Inr rows \<Longrightarrow> list_all2 (\<lambda>x r. url_stats n t x = Inr r) xs rows"
  by (induction xs arbitrary: rows) (auto split: sum.splits)



lemma set_nlargest: "set (nlargest n key xs) \<subseteq> set xs"
  unfolding nlargest_def by (metis set_sort set_take_subset)





lemma generate_report_rows:
  assumes "generate_report stats t n = Inr rows"
  shows "list_all2 (\<lambda>x r. url_stats (length stats) t x = Inr r)
           (nlargest n (\<lambda>x. sum_list (snd x)) stats) rows"
  using assms by (simp add: generate_report_def report_loop_Inr)

lemma generate_report_row_entry:
  assumes "generate_report stats t n = Inr rows" "r \<in> set rows"
  shows "\<exists>x\<in>set stats. url_stats (length stats) t x = Inr r"
proof -
  let ?ys = "nlargest n (\<lambda>x. sum_list (snd x)) stats"
  note l2 = generate_report_rows [OF assms(1)]
  from assms(2) obtain i where i: "i < length rows" "rows ! i = r"
    by (auto simp: in_set_conv_nth)
  from list_all2_nthD2 [OF l2 i(1)] i(2)
  have u: "url_stats (length stats) t (?ys ! i) = Inr r" by simp
  from l2 i(1) have "i < length ?ys" by (simp add: list_all2_lengthD)
  then have "?ys ! i \<in> set ?ys" by simp
  then have "?ys ! i \<in> set stats" by (rule subsetD [OF set_nlargest])
  with u show ?thesis by blast
qed



text \<open>
  C5. With one URL whose only request took no time, \<open>total_time\<close> is zero and
  \<open>generate_report\<close> raises \<open>ZeroDivisionError\<close> in \<open>sum(times) / total_time\<close>; no row
  with \<open>time_perc = 0.0\<close> is built.
\<close>

theorem zero_total_time_raises:
  "generate_report [(''/a'', [0])] 0 1 = Inl ZeroDivisionError"
  by (simp add: generate_report_def nlargest_def url_stats_def)

text \<open>
  C3, as the claim states it: for the times 1 and 2 the reported median is 2, while the
  element at index \<open>n/2 - 1\<close> of the sorted times is 1.
\<close>

theorem time_med_lower_middle_counterexample:
  "generate_report [(''/a'', [1, 2])] 3 1 =
     Inr [\<lparr>url = ''/a'', count = 2, count_perc = 2, time_sum = 3, time_perc = 1,
           time_avg = 3 / 2, time_max = 2, time_med = 2\<rparr>]
   \<and> sort [1, 2 :: rat] ! (length [1, 2 :: rat] div 2 - 1) = 1"
  by (simp add: generate_report_def nlargest_def url_stats_def py_max_def)

text \<open>
  C3, amended. For a URL of the report whose list of times has even length \<open>n\<close>,
  \<open>time_med\<close> is the element at index \<open>n/2\<close> of the sorted times, the upper of the
  two middle elements: the index \<open>n/2 - 1\<close> is the one before it, and its element is
  not greater.
\<close>

theorem time_med_upper_middle:
  assumes "generate_report stats total_t report_size = Inr rows"
    and "distinct (map fst stats)"
    and "(u, ts) \<in> set stats"
    and "r \<in> set rows" and "url r = u"
    and "even (length ts)"
  shows "time_med r = sort ts ! (length ts div 2)
         \<and> sort ts ! (length ts div 2 - 1) \<le> time_med r
         \<and> length ts div 2 - 1 < length ts div 2"
proof -
  from generate_report_row_entry [OF assms(1,4)]
  obtain x where x: "x \<in> set stats" "url_stats (length stats) total_t x = Inr r"
    by blast
  from url_stats_Inr [OF x(2)] have f: "url r = fst x" "snd x \<noteq> []"
    "time_med r = sort (snd x) ! (length (snd x) div 2)" by simp_all
  from x(1) f(1) assms(5) have "(u, snd x) \<in> set stats" by (metis prod.collapse)
  with assms(2,3) have ts: "snd x = ts" by (meson eq_key_imp_eq_value)
  from f(2) ts assms(6) have pos: "0 < length ts div 2" by (cases ts) auto
  have "sorted (sort ts)" by simp
  moreover have "length ts div 2 < length (sort ts)" using pos by simp
  ultimately have "sort ts ! (length ts div 2 - 1) \<le> sort ts ! (length ts div 2)"
    by (intro sorted_nth_mono) simp_all
  with f(3) ts pos show ?thesis by simp
qed

theorem time_med_upper_middle_witness:
  "generate_report [(''/a'', [4, 1, 3, 2])] 10 1 =
     Inr [\<lparr>url = ''/a'', count = 4, count_perc = 4, time_sum = 10, time_perc = 1,
           time_avg = 10 / 4, time_max = 4, time_med = 3\<rparr>]
   \<and> sort [4, 1, 3, 2 :: rat] ! (length [4, 1, 3, 2 :: rat] div 2) = 3
   \<and> sort [4, 1, 3, 2 :: rat] ! (length [4, 1, 3, 2 :: rat] div 2 - 1) = 2"
proof -
  let ?r = "\<lparr>url = ''/a'', count = 4, count_perc = 4, time_sum = 10, time_perc = 1,
           time_avg = 10 / 4, time_max = 4, time_med = 3 :: rat\<rparr>"
  have g: "generate_report [(''/a'', [4, 1, 3, 2])] 10 1 = Inr [?r]"
    by (simp add: generate_report_def nlargest_def url_stats_def py_max_def)
  from time_med_upper_middle [OF g, of "''/a''" "[4, 1, 3, 2]" ?r]
  have "time_med ?r = sort [4, 1, 3, 2 :: rat] ! (length [4, 1, 3, 2 :: rat] div 2)
        \<and> sort [4, 1, 3, 2 :: rat] ! (length [4, 1, 3, 2 :: rat] div 2 - 1) \<le> time_med ?r"
    by simp
  with g show ?thesis by simp
qed





subsection \<open>The report on a store of list objects\<close>

lemma url_stats_st_fst:
  "fst (url_stats_st n t h x) = url_stats n t (fst x, h ! snd x)"
  by (simp add: url_stats_st_def Let_def split: sum.splits)

lemma url_stats_st_extends:
  "\<exists>new. snd (url_stats_st n t h x) = h @ new"
  by (simp add: url_stats_st_def Let_def split: sum.splits)

lemma report_loop_st_extends:
  "\<exists>new. snd (report_loop_st n t h xs) = h @ new"
proof (induction xs arbitrary: h)
  case Nil
  then show ?case by simp
next
  case (Cons x xs)
  obtain res h' where u: "url_stats_st n t h x = (res, h')" by (cases "url_stats_st n t h x")
  from url_stats_st_extends [of n t h x] u obtain new1 where h': "h' = h @ new1" by auto
  show ?case
  proof (cases res)
    case (Inl e)
    with u h' show ?thesis by simp
  next
    case (Inr r)
    from Cons.IH [of h'] obtain new2 where "snd (report_loop_st n t h' xs) = h' @ new2" by blast
    with u h' Inr show ?thesis
      by (cases "report_loop_st n t h' xs") (auto split: sum.splits)
  qed
qed

lemma report_loop_st_refines:
  assumes "\<forall>x\<in>set xs. snd x < length h"
  shows "fst (report_loop_st n t h xs) = report_loop n t (map (\<lambda>x. (fst x, h ! snd x)) xs)"
  using assms
proof (induction xs arbitrary: h)
  case Nil
  then show ?case by simp
next
  case (Cons x xs)
  obtain res h' where u: "url_stats_st n t h x = (res, h')" by (cases "url_stats_st n t h x")
  from url_stats_st_extends [of n t h x] u obtain new1 where h': "h' = h @ new1" by auto
  from url_stats_st_fst [of n t h x] u have res: "res = url_stats n t (fst x, h ! snd x)" by simp
  show ?case
  proof (cases res)
    case (Inl e)
    with res have "url_stats n t (fst x, h ! snd x) = Inl e" by simp
    with u Inl show ?thesis by simp
  next
    case (Inr r)
    with res have r: "url_stats n t (fst x, h ! snd x) = Inr r" by simp
    from Cons.prems h' have b: "\<forall>y\<in>set xs. snd y < length h'" by auto
    have same: "map (\<lambda>y. (fst y, h' ! snd y)) xs = map (\<lambda>y. (fst y, h ! snd y)) xs"
      using Cons.prems h' by (auto simp: nth_append)
    from Cons.IH [OF b] same
    have "fst (report_loop_st n t h' xs) = report_loop n t (map (\<lambda>y. (fst y, h ! snd y)) xs)"
      by simp
    with u r Inr show ?thesis
      by (cases "report_loop_st n t h' xs") (auto split: sum.splits)
  qed
qed

lemma sort_key_map_commute:
  "sort_key f (map g xs) = map g (sort_key (\<lambda>x. f (g x)) xs)"
proof (induction xs)
  case Nil
  then show ?case by simp
next
  case (Cons x xs)
  have ins: "insort_key f (g a) (map g ys) = map g (insort_key (\<lambda>x. f (g x)) a ys)" for a ys
    by (induction ys) simp_all
  from Cons show ?case by (simp add: ins)
qed

lemma nlargest_map:
  "nlargest n key (map g xs) = map g (nlargest n (\<lambda>x. key (g x)) xs)"
  by (simp add: nlargest_def sort_key_map_commute take_map)

lemma generate_report_st_refines:
  assumes "wf_store s"
  shows "fst (generate_report_st s t n) = generate_report (stats_of s) t n"
proof -
  let ?h = "list_objs s"
  let ?ys = "nlargest n (\<lambda>x. sum_list (?h ! snd x)) (dict_items s)"
  from assms have "\<forall>x\<in>set (dict_items s). snd x < length ?h"
    by (simp add: wf_store_def list_all_iff)
  moreover have "x \<in> set (dict_items s)" if "x \<in> set ?ys" for x
    using that by (rule subsetD [OF set_nlargest])
  ultimately have "\<forall>x\<in>set ?ys. snd x < length ?h" by simp
  from report_loop_st_refines [OF this]
  have "fst (report_loop_st (length (dict_items s)) t ?h ?ys)
        = report_loop (length (dict_items s)) t (map (\<lambda>x. (fst x, ?h ! snd x)) ?ys)" .
  then show ?thesis
    by (simp add: generate_report_st_def generate_report_def stats_of_def Let_def nlargest_map)
qed

lemma generate_report_st_frame:
  "dict_items (snd (generate_report_st s t n)) = dict_items s
   \<and> take (length (list_objs s)) (list_objs (snd (generate_report_st s t n))) = list_objs s"
proof -
  from report_loop_st_extends obtain new where
    "snd (report_loop_st (length (dict_items s)) t (list_objs s)
           (nlargest n (\<lambda>x. sum_list (list_objs s ! snd x)) (dict_items s))) = list_objs s @ new"
    by blast
  then show ?thesis by (simp add: generate_report_st_def Let_def)
qed

lemma generate_report_st_keeps:
  assumes "wf_store s"
  shows "wf_store (snd (generate_report_st s t n))"
    and "stats_of (snd (generate_report_st s t n)) = stats_of s"
proof -
  let ?s' = "snd (generate_report_st s t n)"
  from generate_report_st_frame [of s t n]
  have d: "dict_items ?s' = dict_items s"
    and tk: "take (length (list_objs s)) (list_objs ?s') = list_objs s" by simp_all
  from tk have len: "length (list_objs s) \<le> length (list_objs ?s')"
    by (metis length_take min.cobounded1 min.commute)
  from tk have nth: "list_objs ?s' ! a = list_objs s ! a" if "a < length (list_objs s)" for a
    using that by (metis nth_take)
  from assms have b: "\<forall>x\<in>set (dict_items s). snd x < length (list_objs s)"
    by (simp add: wf_store_def list_all_iff)
  with len show "wf_store ?s'"
    by (fastforce simp: wf_store_def list_all_iff d)
  from b nth show "stats_of ?s' = stats_of s"
    by (simp add: stats_of_def d)
qed


text \<open>
  C9. On a store whose dictionary refers to list objects that exist, building the report
  a second time, on the store that the first call has left, gives the same result as the
  first call: the same rows in the same order, or the same exception.
\<close>

theorem generate_report_twice:
  assumes "wf_store s"
  shows "fst (generate_report_st (snd (generate_report_st s total_t report_size)) total_t report_size)
         = fst (generate_report_st s total_t report_size)"
  using assms
  by (simp add: generate_report_st_refines generate_report_st_keeps)


theorem generate_report_twice_witness:
  "wf_store store_ab
   \<and> fst (generate_report_st (snd (generate_report_st store_ab 8 2)) 8 2) =
       Inr [\<lparr>url = ''/b'', count = 1, count_perc = 1 / 2, time_sum = 5,
              time_perc = 5 / 8, time_avg = 5, time_max = 5, time_med = 5\<rparr>,
            \<lparr>url = ''/a'', count = 2, count_perc = 1, time_sum = 3,
              time_perc = 3 / 8, time_avg = 3 / 2, time_max = 2, time_med = 2\<rparr>]"
proof -
  have w: "wf_store store_ab" by (simp add: wf_store_def store_ab_def)
  have g: "fst (generate_report_st store_ab 8 2) =
       Inr [\<lparr>url = ''/b'', count = 1, count_perc = 1 / 2, time_sum = 5,
              time_perc = 5 / 8, time_avg = 5, time_max = 5, time_med = 5\<rparr>,
            \<lparr>url = ''/a'', count = 2, count_perc = 1, time_sum = 3,
              time_perc = 3 / 8, time_avg = 3 / 2, time_max = 2, time_med = 2\<rparr>]"
    by (simp add: generate_report_st_def nlargest_def url_stats_st_def url_stats_def
        py_max_def store_ab_def Let_def)
  from generate_report_twice [OF w, of 8 2] g w show ?thesis by simp
qed

text \<open>
  C10. \<open>generate_report\<close> leaves the dictionary as it was, keys and references, and
  every list object that existed before the call holds the same values after it; what it
  adds to the store are the sorted copies. \<open>total_time\<close> is a number passed by value.
\<close>

theorem generate_report_leaves_inputs:
  "dict_items (snd (generate_report_st s total_t report_size)) = dict_items s
   \<and> take (length (list_objs s)) (list_objs (snd (generate_report_st s total_t report_size)))
       = list_objs s"
  by (rule generate_report_st_frame)

subsection \<open>Reading the log file and the run\<close>

lemma read_log_file_plain:
  assumes "\<not> endswith log_file ''.gz''" and "open_rb ev log_file = Inr raw_lines"
  shows "read_log_file ev log_file = Inr (map Bytes raw_lines)"
  using assms by (simp add: read_log_file_def)

lemma read_log_file_gz:
  assumes "endswith log_file ''.gz''" and "open_rb ev log_file = Inr raw_lines"
    and "gzip_open_rt ev log_file = Inr text_lines"
  shows "read_log_file ev log_file = Inr (map Text text_lines)"
  using assms by (simp add: read_log_file_def)

lemma parse_bytes_raises: "parse_log_line tf (Bytes b) = Inl TypeError"
  by (simp add: parse_log_line_def)

lemma get_latest_plain:
  "get_latest_log_file env_plain ''./log'' = (Inr (Some ''nginx-access-ui.log-20170630''), [])"
  by (simp add: get_latest_log_file_def env_plain_def startswith_def py_max_def)

lemma read_plain:
  "read_log_file env_plain ''./log/nginx-access-ui.log-20170630'' = Inr [Bytes line_a]"
  by (simp add: read_log_file_def env_plain_def endswith_def)

lemma process_plain:
  "process_logs float_table double_tenth [Bytes line_a] =
     (Inl RuntimeError,
      [Error_parsing TypeError, Error_msg ''Too many errors parsing log lines. Exiting.''])"
  by (simp add: process_logs_def process_line_def parse_bytes_raises agg_init_def truediv_1_1
      double_tenth_def)

text \<open>
  C1. A log file whose name does not end in \<open>.gz\<close> is read in binary mode: its lines
  are \<open>bytes\<close> objects, each of them makes \<open>line.split(' ')\<close> raise \<open>TypeError\<close>,
  and the run ends in the \<open>RuntimeError\<close> of \<open>process_logs\<close>, although the same line
  as text parses.
\<close>

theorem plain_file_yields_bytes:
  "read_log_file env_plain ''./log/nginx-access-ui.log-20170630'' = Inr [Bytes line_a]
   \<and> parse_log_line float_table (Bytes line_a) = Inl TypeError
   \<and> parse_log_line float_table (Text line_a) =
       Inr \<lparr>parsed_url = ''/a'', request_time = 1 / 2\<rparr>
   \<and> main float_table env_plain (cfg_default ''./log'') =
       (Crashed RuntimeError,
        [Error_parsing TypeError, Error_msg ''Too many errors parsing log lines. Exiting.''])"
proof -
  have "path_join ''./log'' ''nginx-access-ui.log-20170630'' = ''./log/nginx-access-ui.log-20170630''"
    by (simp add: path_join_def startswith_def endswith_def)
  then have "main float_table env_plain (cfg_default ''./log'') =
       (Crashed RuntimeError,
        [Error_parsing TypeError, Error_msg ''Too many errors parsing log lines. Exiting.''])"
    by (simp add: main_def cfg_default_def get_latest_plain read_plain process_plain)
  then show ?thesis
    by (simp add: read_plain parse_bytes_raises parse_line_a)
qed

text \<open>
  A directory that exists and holds no file with the prefix: the run logs the condition
  twice and ends early.
\<close>

lemma main_no_matching_file:
  "main float_table env_other (cfg_default ''./log'') =
     (Ended_early,
      [Error_msg ''No log files found.'', Error_msg ''No log files found. Exiting.''])"
  by (simp add: main_def cfg_default_def get_latest_log_file_def env_other_def startswith_def)

text \<open>
  C8. For a log directory that does not exist, \<open>os.listdir\<close> raises
  \<open>FileNotFoundError\<close>; neither \<open>get_latest_log_file\<close> nor \<open>main\<close> catches it, so
  the run ends with that exception and nothing is logged.
\<close>

theorem missing_log_dir_crashes:
  "listdir env_plain ''./nolog'' = Inl FileNotFoundError
   \<and> main float_table env_plain (cfg_default ''./nolog'') = (Crashed FileNotFoundError, [])"
  by (simp add: main_def cfg_default_def get_latest_log_file_def env_plain_def)

end
